theory Spec2Isabelle
  imports Complex_Main "HOL-Library.Multiset" "HOL-Library.Log_Nat"
begin

section \<open>Numbers and formatting\<close>

text \<open>
  The tracker is TypeScript and its numbers are binary64. A number is modelled by the
  rational it denotes. \<open>epley1RM\<close>, \<open>tonnage\<close>, \<open>totalTonnage\<close> and the weekly buckets
  give the exact value of the source expression; \<open>tonnage64\<close>, \<open>totalTonnage64\<close>, the
  muscle-group distribution and \<open>calculateNextWeight\<close> round every operation as the
  program does. A numeric field that a function guards with \<^verbatim>\<open>|| 0\<close> or
  \<^verbatim>\<open>?? ''\<close> is a \<open>rat option\<close>, where \<open>None\<close> stands for an absent value
  (\<^verbatim>\<open>undefined\<close> or \<^verbatim>\<open>null\<close>).
\<close>

text \<open>
  \<^verbatim>\<open>x || 0\<close> on a number: an absent value and zero both give zero.
\<close>

definition orZero :: "rat option \<Rightarrow> rat" where
  "orZero v = (case v of None \<Rightarrow> 0 | Some x \<Rightarrow> (if x = 0 then 0 else x))"

text \<open>
  \<^verbatim>\<open>x.toFixed(d)\<close>, as the decimal its string denotes: the sign is split off, and the
  magnitude of the number is rounded to the nearest multiple of \<open>10^-d\<close>, the larger
  one on a tie. The argument is the number the double holds.
\<close>

definition toFixed :: "nat \<Rightarrow> rat \<Rightarrow> rat" where
  "toFixed d x =
     (if x < 0 then - (of_int \<lfloor>(- x) * 10 ^ d + 1 / 2\<rfloor> / 10 ^ d)
      else of_int \<lfloor>x * 10 ^ d + 1 / 2\<rfloor> / 10 ^ d)"

section \<open>Double-precision arithmetic\<close>

text \<open>
  Where a result of the program depends on the rounding of its arithmetic, the operation is
  modelled as the exact operation followed by \<open>toDouble\<close>, the rounding of a rational to the
  nearest binary64 number, ties to the even significand. A number carries 53 significant
  bits; below \<open>2^-1022\<close> the spacing stays at \<open>2^-1074\<close>. Overflow to infinity and NaN are
  outside the model.
\<close>

definition pow2 :: "int \<Rightarrow> rat" where
  "pow2 e = (if 0 \<le> e then 2 ^ nat e else 1 / 2 ^ nat (- e))"

definition roundHalfEven :: "rat \<Rightarrow> int" where
  "roundHalfEven x =
     (let f = \<lfloor>x\<rfloor>; d = x - of_int f
      in if d < 1 / 2 then f else if 1 / 2 < d then f + 1 else if even f then f else f + 1)"

text \<open>The exponent of the leading bit of a positive rational.\<close>

definition log2floor :: "rat \<Rightarrow> int" where
  "log2floor a =
     (if 1 \<le> a then int (floorlog 2 (nat \<lfloor>a\<rfloor>)) - 1
      else - int (floorlog 2 (nat \<lceil>1 / a\<rceil> - 1)))"

definition toDouble :: "rat \<Rightarrow> rat" where
  "toDouble x =
     (if x = 0 then 0
      else let a = \<bar>x\<bar>;
               e = max (log2floor a - 52) (- 1074);
               m = roundHalfEven (a / pow2 e)
           in (if x < 0 then - 1 else 1) * (of_int m * pow2 e))"

section \<open>Workout entries\<close>

record WorkoutEntry =
  date :: string
  exerciseRaw :: "string option"
  exercise :: string
  sets :: "rat option"
  lowTarget :: rat
  highTarget :: rat
  tempo :: string
  rest :: string
  reps :: "rat option"
  weight :: "rat option"
  rpe :: "rat option"
  notesText :: "string option"
  nextWeight :: "rat option"

datatype MuscleGroup =
  Chest | Back | Legs | Shoulders | Arms | Core | Calves | Conditioning | Other

section \<open>Per-entry formulas\<close>

text \<open>\<^verbatim>\<open>function epley1RM(w, r) { return r > 0 ? w * (1 + r / 30) : w; }\<close>\<close>

definition epley1RM :: "rat \<Rightarrow> rat \<Rightarrow> rat" where
  "epley1RM w r = (if r > 0 then w * (1 + r / 30) else w)"

text \<open>\<^verbatim>\<open>function tonnage(w) { return (w.sets || 0) * (w.reps || 0) * (w.weight || 0); }\<close>\<close>

definition tonnage :: "WorkoutEntry \<Rightarrow> rat" where
  "tonnage w = orZero (sets w) * orZero (reps w) * orZero (weight w)"

text \<open>
  \<^verbatim>\<open>calculateNextWeight\<close>: the three branches in the order of the source. The factors
  are the doubles of the literals 1.025 and 0.95, the product is rounded, and each result
  is formatted by \<^verbatim>\<open>toFixed(1)\<close>.
\<close>

definition calculateNextWeight :: "rat \<Rightarrow> rat \<Rightarrow> rat \<Rightarrow> rat \<Rightarrow> rat \<Rightarrow> rat" where
  "calculateNextWeight currentWeight r lowT highT e =
     (if r \<ge> highT \<and> e \<ge> 9
        then toFixed 1 (toDouble (currentWeight * toDouble (1025 / 1000)))
      else if r < lowT then toFixed 1 (toDouble (currentWeight * toDouble (95 / 100)))
      else toFixed 1 currentWeight)"

section \<open>Strings and keyword tests\<close>

text \<open>
  \<^verbatim>\<open>toLowerCase\<close> on the ASCII letters; every other character is kept.
\<close>

definition toLowerChar :: "char \<Rightarrow> char" where
  "toLowerChar c =
     (let n = (of_char c :: nat) in if 65 \<le> n \<and> n \<le> 90 then char_of (n + 32) else c)"

definition toLowerCase :: "string \<Rightarrow> string" where
  "toLowerCase s = map toLowerChar s"

fun startsWith :: "string \<Rightarrow> string \<Rightarrow> bool" where
  "startsWith s [] = True"
| "startsWith [] (p # ps) = False"
| "startsWith (c # cs) (p # ps) = (c = p \<and> startsWith cs ps)"

fun includesStr :: "string \<Rightarrow> string \<Rightarrow> bool" where
  "includesStr [] p = (p = [])"
| "includesStr (c # cs) p = (startsWith (c # cs) p \<or> includesStr cs p)"

text \<open>
  \<^verbatim>\<open>/(a|b|c)/.test(x)\<close> for literal alternatives: some alternative occurs in \<open>x\<close>.
\<close>

definition testAny :: "string list \<Rightarrow> string \<Rightarrow> bool" where
  "testAny alts x = list_ex (includesStr x) alts"

section \<open>Exercise to muscle group\<close>

text \<open>
  The keyword rules of \<^verbatim>\<open>inferMuscleGroup\<close>, tried in the order of the source on the
  lower-cased name.
\<close>

definition keywordGroup :: "string \<Rightarrow> MuscleGroup" where
  "keywordGroup x =
     (if testAny [''squat'', ''lunge'', ''leg press'', ''hack'', ''deadlift'', ''rdl'',
                  ''thigh'', ''hamstring'', ''quad''] x then Legs
      else if testAny [''bench'', ''chest'', ''fly'', ''dip''] x then Chest
      else if testAny [''row'', ''pulldown'', ''pull-up'', ''chin'', ''lat'', ''back''] x then Back
      else if testAny [''press'', ''shoulder'', ''lateral'', ''rear delt'', ''overhead''] x
        then Shoulders
      else if testAny [''curl'', ''bicep'', ''tricep'', ''extension'', ''pushdown''] x then Arms
      else if testAny [''calf''] x then Calves
      else if testAny [''abs'', ''core'', ''crunch'', ''plank''] x then Core
      else if testAny [''run'', ''bike'', ''swim'', ''conditioning'', ''kettlebell'',
                       ''cardio''] x then Conditioning
      else Other)"

text \<open>
  \<^verbatim>\<open>inferMuscleGroup\<close> reads \<^verbatim>\<open>muscleGroupOverrides[exercise]\<close> and returns it when it is
  truthy. The object is a plain one, so the read finds its own keys and, for a name that
  is not an own key, whatever every object inherits: a function, or the prototype itself
  for \<^verbatim>\<open>__proto__\<close>. All of these are truthy, so such a name gets the inherited value, which
  is no muscle group, and the keyword rules are not reached. A stored group is one of the
  nine non-empty names.
\<close>

definition objectPrototypeKeys :: "string list" where
  "objectPrototypeKeys =
     [''constructor'', ''__defineGetter__'', ''__defineSetter__'', ''hasOwnProperty'',
      ''__lookupGetter__'', ''__lookupSetter__'', ''isPrototypeOf'',
      ''propertyIsEnumerable'', ''toString'', ''valueOf'', ''__proto__'',
      ''toLocaleString'']"

datatype Inferred = Group MuscleGroup | Inherited

definition inferMuscleGroup :: "(string \<rightharpoonup> MuscleGroup) \<Rightarrow> string \<Rightarrow> Inferred" where
  "inferMuscleGroup overrides ex =
     (case overrides ex of
        Some g \<Rightarrow> Group g
      | None \<Rightarrow>
          (if ex \<in> set objectPrototypeKeys then Inherited
           else Group (keywordGroup (toLowerCase ex))))"

section \<open>Volume totals\<close>

text \<open>\<^verbatim>\<open>arr.reduce((s, w) => s + tonnage(w), 0)\<close>, as in \<^verbatim>\<open>compareData\<close>.\<close>

definition totalTonnage :: "WorkoutEntry list \<Rightarrow> rat" where
  "totalTonnage arr = foldl (\<lambda>s w. s + tonnage w) 0 arr"

text \<open>
  The same two functions with the rounding of each operation: the product is taken left
  to right, and the reduce adds the entries in list order.
\<close>

definition tonnage64 :: "WorkoutEntry \<Rightarrow> rat" where
  "tonnage64 w = toDouble (toDouble (orZero (sets w) * orZero (reps w)) * orZero (weight w))"

definition totalTonnage64 :: "WorkoutEntry list \<Rightarrow> rat" where
  "totalTonnage64 arr = foldl (\<lambda>s w. toDouble (s + tonnage64 w)) 0 arr"

section \<open>Weekly volume\<close>

text \<open>
  The accumulation loop of \<^verbatim>\<open>weeklyVolumeSeries\<close>. The week key of an entry,
  \<^verbatim>\<open>startOfWeek(toTs(w.date))\<close>, comes from the date library and is the parameter
  \<open>weekOf\<close>. A bucket is created at zero when its week is first seen.
\<close>

record WeekBucket =
  wk_ts :: int
  wk_volume :: rat
  wk_rpeSum :: rat
  wk_rpeCount :: nat

definition weeklyStep ::
  "(string \<Rightarrow> int) \<Rightarrow> (int \<rightharpoonup> WeekBucket) \<Rightarrow> WorkoutEntry \<Rightarrow> (int \<rightharpoonup> WeekBucket)" where
  "weeklyStep weekOf m w =
     (let ts = weekOf (date w);
          b = (case m ts of
                 None \<Rightarrow> \<lparr>wk_ts = ts, wk_volume = 0, wk_rpeSum = 0, wk_rpeCount = 0\<rparr>
               | Some b0 \<Rightarrow> b0);
          b1 = b\<lparr>wk_volume := wk_volume b + tonnage w\<rparr>;
          b2 = (case rpe w of
                  None \<Rightarrow> b1
                | Some e \<Rightarrow>
                    (if e > 0
                     then b1\<lparr>wk_rpeSum := wk_rpeSum b1 + e, wk_rpeCount := wk_rpeCount b1 + 1\<rparr>
                     else b1))
      in m(ts \<mapsto> b2))"

definition weeklyBuckets :: "(string \<Rightarrow> int) \<Rightarrow> WorkoutEntry list \<Rightarrow> (int \<rightharpoonup> WeekBucket)" where
  "weeklyBuckets weekOf ws = foldl (weeklyStep weekOf) Map.empty ws"

section \<open>Muscle-group distribution\<close>

record GroupItem =
  item_name :: MuscleGroup
  item_value :: rat
  item_color :: string

record GroupShare = GroupItem +
  item_pct :: rat
  item_total :: rat

text \<open>The keys of the accumulator object, in the order the literal lists them.\<close>

definition muscleKeys :: "MuscleGroup list" where
  "muscleKeys = [Chest, Back, Legs, Shoulders, Arms, Core, Calves, Conditioning, Other]"

fun palette :: "MuscleGroup \<Rightarrow> string" where
  "palette Legs = ''#34d399''"
| "palette Back = ''#60a5fa''"
| "palette Chest = ''#a78bfa''"
| "palette Shoulders = ''#fbbf24''"
| "palette Arms = ''#fb7185''"
| "palette Core = ''#22c55e''"
| "palette Calves = ''#eab308''"
| "palette Conditioning = ''#38bdf8''"
| "palette Other = ''#94a3b8''"

text \<open>
  The loop \<^verbatim>\<open>for (const w of allWorkouts) { map[g] += tonnage(w) }\<close> over an accumulator
  that starts at zero for the nine groups. When \<open>g\<close> is an inherited value the sum lands on
  a key outside the nine groups, where \<^verbatim>\<open>undefined + number\<close> is NaN; the filter
  \<^verbatim>\<open>x.value > 0\<close> below drops that key, so the accumulator leaves it out.
\<close>

definition groupTotals ::
  "(string \<rightharpoonup> MuscleGroup) \<Rightarrow> WorkoutEntry list \<Rightarrow> MuscleGroup \<Rightarrow> rat" where
  "groupTotals overrides ws =
     foldl (\<lambda>m w. case inferMuscleGroup overrides (exercise w) of
                     Group g \<Rightarrow> m(g := toDouble (m g + tonnage64 w))
                   | Inherited \<Rightarrow> m)
       (\<lambda>_. 0) ws"

text \<open>
  The entries with a positive value, sorted by value, largest first (the sort is stable).
\<close>

definition groupItems :: "(string \<rightharpoonup> MuscleGroup) \<Rightarrow> WorkoutEntry list \<Rightarrow> GroupItem list" where
  "groupItems overrides ws =
     (let m = groupTotals overrides ws
      in sort_key (\<lambda>x. - item_value x)
           (filter (\<lambda>x. item_value x > 0)
              (map (\<lambda>n. \<lparr>item_name = n, item_value = m n, item_color = palette n\<rparr>)
                 muscleKeys)))"

text \<open>
  \<^verbatim>\<open>pct: total ? +(x.value / total * 100).toFixed(1) : 0\<close>: the quotient and the product
  are rounded, the result is formatted, and the unary plus reads the string back as a
  double.
\<close>

definition muscleGroupTonnage ::
  "(string \<rightharpoonup> MuscleGroup) \<Rightarrow> WorkoutEntry list \<Rightarrow> GroupShare list" where
  "muscleGroupTonnage overrides ws =
     (let items = groupItems overrides ws;
          tot = foldl (\<lambda>s x. toDouble (s + item_value x)) 0 items
      in map (\<lambda>x. \<lparr>item_name = item_name x, item_value = item_value x,
                     item_color = item_color x,
                     item_pct =
                       (if tot \<noteq> 0
                        then toDouble (toFixed 1 (toDouble (toDouble (item_value x / tot) * 100)))
                        else 0),
                     item_total = tot\<rparr>) items)"

section \<open>Deduplication\<close>

text \<open>
  The key of \<^verbatim>\<open>deduplicateWorkouts\<close> is the template string
  \<^verbatim>\<open>`${w.date}-${w.exercise}-${w.weight}-${w.reps}-${w.rpe ?? ''}`\<close>. The conversion of a
  numeric field to its string, \<open>str\<close>, is the language's own and is a parameter here.
\<close>

definition workoutKey :: "(rat option \<Rightarrow> string) \<Rightarrow> WorkoutEntry \<Rightarrow> string" where
  "workoutKey str w =
     date w @ ''-'' @ exercise w @ ''-'' @ str (weight w) @ ''-'' @ str (reps w) @ ''-'' @
     (case rpe w of None \<Rightarrow> [] | Some r \<Rightarrow> str (Some r))"

text \<open>
  The filter callback reads and extends the set \<^verbatim>\<open>seen\<close>; the set is passed along.
\<close>

fun dedupFilter ::
  "(rat option \<Rightarrow> string) \<Rightarrow> string set \<Rightarrow> WorkoutEntry list \<Rightarrow> WorkoutEntry list" where
  "dedupFilter str seen [] = []"
| "dedupFilter str seen (w # ws) =
     (let key = workoutKey str w
      in if key \<in> seen then dedupFilter str seen ws
         else w # dedupFilter str (insert key seen) ws)"

definition deduplicateWorkouts ::
  "(rat option \<Rightarrow> string) \<Rightarrow> WorkoutEntry list \<Rightarrow> WorkoutEntry list" where
  "deduplicateWorkouts str workouts = dedupFilter str {} workouts"

text \<open>The five fields the key is built from.\<close>

definition entryFields ::
  "WorkoutEntry \<Rightarrow> string \<times> string \<times> rat option \<times> rat option \<times> rat option" where
  "entryFields w = (date w, exercise w, weight w, reps w, rpe w)"

text \<open>
  The state update of \<^verbatim>\<open>handleWorkoutUpload\<close>: each category list of the upload is appended
  to the stored list of the same category, and that list alone is deduplicated.
\<close>

record WorkoutsState =
  push :: "WorkoutEntry list"
  pull :: "WorkoutEntry list"
  legs :: "WorkoutEntry list"
  conditioning :: "WorkoutEntry list"

definition mergeUpload ::
  "(rat option \<Rightarrow> string) \<Rightarrow> WorkoutsState \<Rightarrow> WorkoutsState \<Rightarrow> WorkoutsState" where
  "mergeUpload str prev newWorkouts =
     \<lparr>push = deduplicateWorkouts str (push prev @ push newWorkouts),
      pull = deduplicateWorkouts str (pull prev @ pull newWorkouts),
      legs = deduplicateWorkouts str (legs prev @ legs newWorkouts),
      conditioning = deduplicateWorkouts str (conditioning prev @ conditioning newWorkouts)\<rparr>"

text \<open>
  The numeric field values of a list of entries, and the entries whose exercise name and
  number strings contain no hyphen (and whose RPE, when present, prints as a non-empty
  string): for these the key string can be read back field by field.
\<close>

definition fieldValues :: "WorkoutEntry list \<Rightarrow> rat option list" where
  "fieldValues ws = concat (map (\<lambda>w. [weight w, reps w, rpe w]) ws)"

definition plainEntry :: "(rat option \<Rightarrow> string) \<Rightarrow> WorkoutEntry \<Rightarrow> bool" where
  "plainEntry str w =
     (CHR ''-'' \<notin> set (exercise w) \<and> CHR ''-'' \<notin> set (str (weight w)) \<and>
      CHR ''-'' \<notin> set (str (reps w)) \<and> CHR ''-'' \<notin> set (str (rpe w)) \<and>
      str (rpe w) \<noteq> [])"

section \<open>Uploaded rows\<close>

text \<open>
  One row of \<^verbatim>\<open>handleWorkoutUpload\<close>, after the cells have been read: \<open>repsN\<close>,
  \<open>weightN\<close> and \<open>rpeN\<close> are the results of \<^verbatim>\<open>Number(...)\<close>, \<open>None\<close> when the result is
  not finite (the row then gets 0, 0 and 9). The targets are the constants 6 and 10.
\<close>

definition finiteOr :: "rat option \<Rightarrow> rat \<Rightarrow> rat" where
  "finiteOr v d = (case v of Some x \<Rightarrow> x | None \<Rightarrow> d)"

definition uploadedWorkout ::
  "string \<Rightarrow> string \<Rightarrow> string \<Rightarrow> rat \<Rightarrow> rat option \<Rightarrow> rat option \<Rightarrow> rat option \<Rightarrow> string
     \<Rightarrow> WorkoutEntry" where
  "uploadedWorkout d rawExercise ex s repsN weightN rpeN nt =
     (let r = finiteOr repsN 0; wt = finiteOr weightN 0; e = finiteOr rpeN 9
      in \<lparr>date = d, exerciseRaw = Some rawExercise, exercise = ex, sets = Some s,
           lowTarget = 6, highTarget = 10, tempo = ''3010'', rest = ''120s'',
           reps = Some r, weight = Some wt, rpe = Some e, notesText = Some nt,
           nextWeight = Some (calculateNextWeight wt r 6 10 e)\<rparr>)"

section \<open>Session matcher\<close>

text \<open>
  The matcher and the metric deriver belong to the backend service; the API client declares
  the shape of its response (\<^verbatim>\<open>Workout\<close>). Times and durations are in seconds.
\<close>

text \<open>
  Modelled from the spec: the four tiers of \<^verbatim>\<open>match_quality\<close>;
  \<open>NoMatch\<close> is the tier \<^verbatim>\<open>none\<close>.
\<close>

datatype MatchQuality = Exact | Close | Approximate | NoMatch

text \<open>
  Modelled from the spec: a training session, with its start and the duration taken from its
  own logged exercises when there is one.
\<close>

record TrainingSession =
  session_start :: rat
  session_duration :: "rat option"

text \<open>
  Modelled from the spec: a workout-labelled window of the biometric stream with its
  aggregates, each absent when the stream has no such reading.
\<close>

record BiometricWindow =
  window_start :: rat
  window_end :: rat
  window_avg_hr :: "rat option"
  window_max_hr :: "rat option"
  window_min_hr :: "rat option"
  window_calories :: "rat option"
  window_distance :: "rat option"

text \<open>
  Modelled from the spec: the biometric fields and the match quality of a merged workout, as
  the response type \<^verbatim>\<open>Workout\<close> declares them
  (\<^verbatim>\<open>number | null\<close>).
\<close>

record MergedWorkout =
  merged_start :: rat
  avg_heart_rate :: "rat option"
  max_heart_rate :: "rat option"
  min_heart_rate :: "rat option"
  calories :: "rat option"
  distance_meters :: "rat option"
  apple_match_quality :: MatchQuality

text \<open>
  Modelled from the spec: the midpoint of the nominal window \<open>[start, start +
  duration]\<close>, the duration being a fixed default when the session has none.
\<close>

definition sessionMidpoint :: "rat \<Rightarrow> TrainingSession \<Rightarrow> rat" where
  "sessionMidpoint defaultDuration s =
     session_start s +
     (case session_duration s of Some d \<Rightarrow> d | None \<Rightarrow> defaultDuration) / 2"

text \<open>
  Modelled from the spec: the midpoint of a biometric window.
\<close>

definition windowMidpoint :: "BiometricWindow \<Rightarrow> rat" where
  "windowMidpoint w = (window_start w + window_end w) / 2"

text \<open>
  Modelled from the spec: the gap between a session and a window, the distance of their
  midpoints.
\<close>

definition matchGap :: "rat \<Rightarrow> TrainingSession \<Rightarrow> BiometricWindow \<Rightarrow> rat" where
  "matchGap defaultDuration s w = \<bar>windowMidpoint w - sessionMidpoint defaultDuration s\<bar>"

text \<open>
  Modelled from the spec: gap under 5 minutes is exact, under 30 close, under 45 approximate,
  otherwise none.
\<close>

definition matchTier :: "rat \<Rightarrow> MatchQuality" where
  "matchTier gap =
     (if gap < 5 * 60 then Exact
      else if gap < 30 * 60 then Close
      else if gap < 45 * 60 then Approximate
      else NoMatch)"

text \<open>
  Modelled from the spec: the search of the backend matcher, the window whose midpoint is
  closest to the session's; ties go to the earliest window. No window is consumed by a match.
\<close>

fun nearestWindow ::
  "rat \<Rightarrow> TrainingSession \<Rightarrow> BiometricWindow list \<Rightarrow> BiometricWindow option" where
  "nearestWindow defaultDuration s [] = None"
| "nearestWindow defaultDuration s (w # ws) =
     (case nearestWindow defaultDuration s ws of
        None \<Rightarrow> Some w
      | Some b \<Rightarrow>
          (if matchGap defaultDuration s w < matchGap defaultDuration s b \<or>
              (matchGap defaultDuration s w = matchGap defaultDuration s b \<and>
               window_start w \<le> window_start b)
           then Some w else Some b))"

text \<open>
  Modelled from the spec: a session without a match has no biometric field populated.
\<close>

definition unmatchedWorkout :: "TrainingSession \<Rightarrow> MergedWorkout" where
  "unmatchedWorkout s =
     \<lparr>merged_start = session_start s, avg_heart_rate = None, max_heart_rate = None,
      min_heart_rate = None, calories = None, distance_meters = None,
      apple_match_quality = NoMatch\<rparr>"

text \<open>
  Modelled from the spec: the merge of one session by the backend matcher and deriver: the
  fields of the nearest window when it lies within the 45 minute radius, nothing otherwise.
\<close>

definition mergeSession ::
  "rat \<Rightarrow> TrainingSession \<Rightarrow> BiometricWindow list \<Rightarrow> MergedWorkout" where
  "mergeSession defaultDuration s ws =
     (case nearestWindow defaultDuration s ws of
        None \<Rightarrow> unmatchedWorkout s
      | Some w \<Rightarrow>
          (case matchTier (matchGap defaultDuration s w) of
             NoMatch \<Rightarrow> unmatchedWorkout s
           | q \<Rightarrow>
               \<lparr>merged_start = session_start s, avg_heart_rate = window_avg_hr w,
                max_heart_rate = window_max_hr w, min_heart_rate = window_min_hr w,
                calories = window_calories w, distance_meters = window_distance w,
                apple_match_quality = q\<rparr>))"

section \<open>Reference quantities\<close>

text \<open>
  The tonnage of the entries that \<^verbatim>\<open>inferMuscleGroup\<close> assigns to a group, added in the
  order of the history as the program adds them, and the entry the distribution shows for
  that group.
\<close>

definition groupVolume ::
  "(string \<rightharpoonup> MuscleGroup) \<Rightarrow> WorkoutEntry list \<Rightarrow> MuscleGroup \<Rightarrow> rat" where
  "groupVolume overrides ws g =
     totalTonnage64 (filter (\<lambda>w. inferMuscleGroup overrides (exercise w) = Group g) ws)"

definition groupEntry ::
  "(string \<rightharpoonup> MuscleGroup) \<Rightarrow> WorkoutEntry list \<Rightarrow> MuscleGroup \<Rightarrow> GroupItem" where
  "groupEntry overrides ws n =
     \<lparr>item_name = n, item_value = groupVolume overrides ws n, item_color = palette n\<rparr>"

text \<open>A whole number that is not negative.\<close>

definition wholeNumber :: "rat \<Rightarrow> bool" where
  "wholeNumber x = (0 \<le> x \<and> x = of_int \<lfloor>x\<rfloor>)"

text \<open>An entry whose sets, reps and weight are whole numbers.\<close>

definition wholeEntry :: "WorkoutEntry \<Rightarrow> bool" where
  "wholeEntry w =
     (wholeNumber (orZero (sets w)) \<and> wholeNumber (orZero (reps w)) \<and>
      wholeNumber (orZero (weight w)))"

text \<open>
  Total volume as the specification words it: the sum of weight times reps over the sets
  where both are present and positive; any other set contributes nothing.
\<close>

definition specSetVolume :: "WorkoutEntry \<Rightarrow> rat" where
  "specSetVolume w =
     (case weight w of
        None \<Rightarrow> 0
      | Some x \<Rightarrow>
          (case reps w of
             None \<Rightarrow> 0
           | Some r \<Rightarrow> (if 0 < x \<and> 0 < r then x * r else 0)))"

definition specTotalVolume :: "WorkoutEntry list \<Rightarrow> rat" where
  "specTotalVolume ws = sum_list (map specSetVolume ws)"

section \<open>Sample data\<close>

text \<open>A logged entry with the given date, exercise, sets, reps and weight, at RPE 9.\<close>

definition sampleEntry :: "string \<Rightarrow> string \<Rightarrow> rat \<Rightarrow> rat \<Rightarrow> rat \<Rightarrow> WorkoutEntry" where
  "sampleEntry d ex s r w =
     \<lparr>date = d, exerciseRaw = None, exercise = ex, sets = Some s, lowTarget = 6,
      highTarget = 10, tempo = ''3010'', rest = ''120s'', reps = Some r, weight = Some w,
      rpe = Some 9, notesText = None, nextWeight = None\<rparr>"

text \<open>
  The strings of whole numbers as the language prints them: decimal digits, with a minus
  sign when negative, and \<^verbatim>\<open>undefined\<close> for an absent value. The samples use whole numbers
  only; any other number prints its integer part followed by a mark.
\<close>

fun digitsOf :: "nat \<Rightarrow> string" where
  "digitsOf n =
     (if n < 10 then [char_of (48 + n)]
      else digitsOf (n div 10) @ [char_of (48 + n mod 10)])"

definition wholeNumberString :: "rat option \<Rightarrow> string" where
  "wholeNumberString v =
     (case v of
        None \<Rightarrow> ''undefined''
      | Some x \<Rightarrow>
          (if x < 0 then ''-'' else []) @ digitsOf (nat \<lfloor>\<bar>x\<bar>\<rfloor>) @
          (if x = of_int \<lfloor>x\<rfloor> then [] else ''.?''))"

text \<open>A biometric window with readings for every aggregate.\<close>

definition sampleWindow :: "rat \<Rightarrow> rat \<Rightarrow> BiometricWindow" where
  "sampleWindow a b =
     \<lparr>window_start = a, window_end = b, window_avg_hr = Some 128, window_max_hr = Some 165,
      window_min_hr = Some 92, window_calories = Some 410, window_distance = Some 0\<rparr>"

section \<open>Estimated one-rep max\<close>

text \<open>
  C4. For every set with weight \<open>w \<ge> 0\<close> and reps \<open>r > 0\<close>, the estimated one-rep max
  computed by the program equals \<open>w * (1 + r / 30)\<close>, the Epley formula.
\<close>

theorem epley1RM_formula:
  "0 \<le> w \<Longrightarrow> 0 < r \<Longrightarrow> epley1RM w r = w * (1 + r / 30)"
  by (simp add: epley1RM_def)

theorem epley1RM_formula_witness:
  "(0::rat) \<le> 100 \<and> (0::rat) < 5 \<and> epley1RM 100 5 = 350 / 3"
  using epley1RM_formula [of 100 5] by simp

text \<open>
  C5. For every fixed weight \<open>w \<ge> 0\<close> the estimated 1RM is monotonically non-decreasing
  in reps, and with zero reps it is the weight itself.
\<close>

theorem epley1RM_monotone:
  "0 \<le> w \<Longrightarrow>
     (\<forall>r1 r2. r1 \<le> r2 \<longrightarrow> epley1RM w r1 \<le> epley1RM w r2) \<and> epley1RM w 0 = w"
proof -
  assume w: "0 \<le> w"
  have "epley1RM w r1 \<le> epley1RM w r2" if le: "r1 \<le> r2" for r1 r2
  proof (cases "0 < r1")
    case True
    then have "0 < r2" using le by simp
    moreover have "w * (1 + r1 / 30) \<le> w * (1 + r2 / 30)"
      using w le by (intro mult_left_mono) simp_all
    ultimately show ?thesis using True by (simp add: epley1RM_def)
  next
    case r1: False
    show ?thesis
    proof (cases "0 < r2")
      case True
      have "w * 1 \<le> w * (1 + r2 / 30)"
        using w True by (intro mult_left_mono) simp_all
      then show ?thesis using r1 True by (simp add: epley1RM_def)
    next
      case False
      then show ?thesis using r1 by (simp add: epley1RM_def)
    qed
  qed
  then show ?thesis by (simp add: epley1RM_def)
qed

theorem epley1RM_monotone_witness:
  "(0::rat) \<le> 100 \<and> epley1RM 100 3 \<le> epley1RM 100 8 \<and> epley1RM 100 0 = 100"
  using epley1RM_monotone [of 100] by simp

section \<open>Total volume of a list of entries\<close>

lemma totalTonnage_sum_list: "totalTonnage ws = sum_list (map tonnage ws)"
proof -
  have "foldl (\<lambda>s w. s + tonnage w) a ws = a + sum_list (map tonnage ws)" for a
    by (induction ws arbitrary: a) (simp_all add: add.assoc)
  then show ?thesis by (simp add: totalTonnage_def)
qed

lemma weekly_volume_fold:
  "(case foldl (weeklyStep weekOf) m ws k of None \<Rightarrow> 0 | Some b \<Rightarrow> wk_volume b) =
   (case m k of None \<Rightarrow> 0 | Some b \<Rightarrow> wk_volume b) +
   sum_list (map tonnage (filter (\<lambda>w. weekOf (date w) = k) ws))"
proof (induction ws arbitrary: m)
  case Nil
  show ?case by simp
next
  case (Cons w ws)
  have step: "(case weeklyStep weekOf m w k of None \<Rightarrow> 0 | Some b \<Rightarrow> wk_volume b) =
      (case m k of None \<Rightarrow> 0 | Some b \<Rightarrow> wk_volume b) +
      (if weekOf (date w) = k then tonnage w else 0)"
    by (simp add: weeklyStep_def Let_def split: option.splits)
  show ?case
    using Cons.IH[of "weeklyStep weekOf m w"] by (simp add: step)
qed

lemma weeklyBuckets_volume:
  "weeklyBuckets weekOf ws k = Some b \<Longrightarrow>
   wk_volume b = totalTonnage (filter (\<lambda>w. weekOf (date w) = k) ws)"
  using weekly_volume_fold[of weekOf Map.empty ws k]
  by (simp add: weeklyBuckets_def totalTonnage_sum_list)

lemma tonnage_specSetVolume:
  "sets w = Some 1 \<Longrightarrow> 0 \<le> orZero (reps w) \<Longrightarrow> 0 \<le> orZero (weight w) \<Longrightarrow>
   tonnage w = specSetVolume w"
  by (auto simp: tonnage_def specSetVolume_def orZero_def split: option.splits if_splits)

text \<open>
  C3 (as amended). The total volume is the sum over the entries of sets times reps times
  weight, an entry with any of the three missing contributing nothing; each weekly bucket
  holds that total for the entries of its week. When every entry counts one set and no
  reps or weight is negative, the total is the sum of weight times reps over exactly the
  entries where both are present and positive.
\<close>

theorem total_volume_sets_reps_weight:
  "totalTonnage ws =
     sum_list (map (\<lambda>w. orZero (sets w) * orZero (reps w) * orZero (weight w)) ws) \<and>
   (sets w = None \<or> reps w = None \<or> weight w = None \<longrightarrow> tonnage w = 0) \<and>
   (weeklyBuckets weekOf ws k = Some b \<longrightarrow>
      wk_volume b = totalTonnage (filter (\<lambda>w. weekOf (date w) = k) ws)) \<and>
   ((\<forall>w \<in> set ws. sets w = Some 1 \<and> 0 \<le> orZero (reps w) \<and> 0 \<le> orZero (weight w)) \<longrightarrow>
      totalTonnage ws = specTotalVolume ws)"
proof (intro conjI impI)
  show "totalTonnage ws =
     sum_list (map (\<lambda>w. orZero (sets w) * orZero (reps w) * orZero (weight w)) ws)"
  proof -
    have "tonnage = (\<lambda>w. orZero (sets w) * orZero (reps w) * orZero (weight w))"
      by (rule ext) (simp add: tonnage_def)
    then show ?thesis by (simp add: totalTonnage_sum_list)
  qed
  show "tonnage w = 0" if "sets w = None \<or> reps w = None \<or> weight w = None"
    using that by (auto simp: tonnage_def orZero_def)
  show "wk_volume b = totalTonnage (filter (\<lambda>w. weekOf (date w) = k) ws)"
    if "weeklyBuckets weekOf ws k = Some b"
    using that by (rule weeklyBuckets_volume)
  show "totalTonnage ws = specTotalVolume ws"
    if "\<forall>w \<in> set ws. sets w = Some 1 \<and> 0 \<le> orZero (reps w) \<and> 0 \<le> orZero (weight w)"
  proof -
    have m: "map tonnage ws = map specSetVolume ws"
      using that by (intro map_cong refl tonnage_specSetVolume) auto
    show ?thesis unfolding totalTonnage_sum_list specTotalVolume_def m by (rule refl)
  qed
qed

theorem total_volume_sets_reps_weight_witness:
  "totalTonnage [sampleEntry ''2025-01-06'' ''Squat'' 1 5 100,
                 sampleEntry ''2025-01-08'' ''Bench'' 1 8 60] =
   specTotalVolume [sampleEntry ''2025-01-06'' ''Squat'' 1 5 100,
                    sampleEntry ''2025-01-08'' ''Bench'' 1 8 60] \<and>
   specTotalVolume [sampleEntry ''2025-01-06'' ''Squat'' 1 5 100,
                    sampleEntry ''2025-01-08'' ''Bench'' 1 8 60] = 980 \<and>
   tonnage ((sampleEntry ''2025-01-06'' ''Squat'' 1 5 100)\<lparr>reps := None\<rparr>) = 0 \<and>
   weeklyBuckets (\<lambda>d. 0) [sampleEntry ''2025-01-06'' ''Squat'' 1 5 100,
                           sampleEntry ''2025-01-08'' ''Bench'' 1 8 60] 0 =
     Some \<lparr>wk_ts = 0, wk_volume = 980, wk_rpeSum = 18, wk_rpeCount = 2\<rparr>"
proof -
  let ?ws = "[sampleEntry ''2025-01-06'' ''Squat'' 1 5 100,
              sampleEntry ''2025-01-08'' ''Bench'' 1 8 60]"
  let ?e = "(sampleEntry ''2025-01-06'' ''Squat'' 1 5 100)\<lparr>reps := None\<rparr>"
  let ?b = "\<lparr>wk_ts = 0, wk_volume = 980, wk_rpeSum = 18, wk_rpeCount = 2\<rparr>"
  have h: "\<forall>w \<in> set ?ws. sets w = Some 1 \<and> 0 \<le> orZero (reps w) \<and> 0 \<le> orZero (weight w)"
    by (simp add: sampleEntry_def orZero_def)
  have n: "sets ?e = None \<or> reps ?e = None \<or> weight ?e = None" by simp
  have wb: "weeklyBuckets (\<lambda>d. 0) ?ws 0 = Some ?b" by code_simp
  have sv: "specTotalVolume ?ws = 980" by code_simp
  note t = total_volume_sets_reps_weight
    [where ws = ?ws and w = ?e and weekOf = "\<lambda>d. 0" and k = 0 and b = ?b]
  have 1: "totalTonnage ?ws = specTotalVolume ?ws" using t h by blast
  have 2: "tonnage ?e = 0" using t n by blast
  show ?thesis by (rule conjI[OF 1 conjI[OF sv conjI[OF 2 wb]]])
qed

text \<open>
  An entry that counts two sets: the tracker reports sets times reps times weight, twice
  the product of weight and reps.
\<close>

theorem total_volume_counterexample:
  "totalTonnage [sampleEntry ''2025-01-06'' ''Squat'' 2 5 100] = 1000 \<and>
   specTotalVolume [sampleEntry ''2025-01-06'' ''Squat'' 2 5 100] = 500"
  by code_simp

section \<open>Unmatched sessions\<close>

lemma nearestWindow_mem: "nearestWindow d s ws = Some w \<Longrightarrow> w \<in> set ws"
  by (induction ws arbitrary: w) (auto split: option.splits if_splits)

lemma nearestWindow_least:
  "nearestWindow d s ws = Some w \<Longrightarrow> v \<in> set ws \<Longrightarrow> matchGap d s w \<le> matchGap d s v"
proof (induction ws arbitrary: w)
  case Nil
  then show ?case by simp
next
  case (Cons x xs)
  show ?case
  proof (cases "nearestWindow d s xs")
    case None
    then have "xs = []" by (cases xs) (auto split: option.splits if_splits)
    with Cons.prems None show ?thesis by simp
  next
    case (Some b)
    have b: "v \<in> set xs \<Longrightarrow> matchGap d s b \<le> matchGap d s v"
      using Cons.IH[OF Some] by simp
    from Cons.prems(2) have "v = x \<or> v \<in> set xs" by simp
    then show ?thesis
      using Cons.prems(1) Some b by (auto split: if_splits)
  qed
qed

lemma unmatched_iff:
  "apple_match_quality (mergeSession d s ws) = NoMatch \<longleftrightarrow>
   (\<forall>w \<in> set ws. 45 * 60 \<le> matchGap d s w)"
proof (cases "nearestWindow d s ws")
  case None
  then have "ws = []" by (cases ws) (auto split: option.splits if_splits)
  then show ?thesis by (simp add: mergeSession_def unmatchedWorkout_def)
next
  case (Some b)
  have q: "apple_match_quality (mergeSession d s ws) = matchTier (matchGap d s b)"
    using Some by (simp add: mergeSession_def unmatchedWorkout_def split: MatchQuality.splits)
  have t: "matchTier g = NoMatch \<longleftrightarrow> 45 * 60 \<le> g" for g
    by (auto simp: matchTier_def)
  show ?thesis
    unfolding q t
    using nearestWindow_mem[OF Some] nearestWindow_least[OF Some] by (meson order_trans)
qed

text \<open>
  C2. For every merged workout whose match quality is none, each biometric field (average,
  maximum and minimum heart rate, calories, distance) is absent; none of them is filled
  with zero.
\<close>

theorem unmatched_fields_absent:
  "apple_match_quality (mergeSession d s ws) = NoMatch \<Longrightarrow>
   avg_heart_rate (mergeSession d s ws) = None \<and>
   max_heart_rate (mergeSession d s ws) = None \<and>
   min_heart_rate (mergeSession d s ws) = None \<and>
   calories (mergeSession d s ws) = None \<and>
   distance_meters (mergeSession d s ws) = None"
  by (auto simp: mergeSession_def unmatchedWorkout_def split: option.splits MatchQuality.splits)

theorem unmatched_fields_absent_witness:
  "apple_match_quality (mergeSession 3600 \<lparr>session_start = 0, session_duration = Some 3600\<rparr>
       [sampleWindow 3000 6600]) = NoMatch \<and>
   avg_heart_rate (mergeSession 3600 \<lparr>session_start = 0, session_duration = Some 3600\<rparr>
       [sampleWindow 3000 6600]) = None \<and>
   calories (mergeSession 3600 \<lparr>session_start = 0, session_duration = Some 3600\<rparr>
       [sampleWindow 3000 6600]) = None \<and>
   window_avg_hr (sampleWindow 3000 6600) = Some 128"
proof -
  let ?m = "mergeSession 3600 \<lparr>session_start = 0, session_duration = Some 3600\<rparr>
       [sampleWindow 3000 6600]"
  have h: "apple_match_quality ?m = NoMatch" by code_simp
  have w: "window_avg_hr (sampleWindow 3000 6600) = Some 128" by (simp add: sampleWindow_def)
  show ?thesis using h unmatched_fields_absent[OF h] w by simp
qed

section \<open>Overrides before keyword rules\<close>

text \<open>
  C8. If the exercise name is a key of the override map, the mapping returns the override's
  group whatever the keyword rules say; the keyword rules are consulted only for names
  that are not in the override map (and, among those, not for a name every object
  inherits, which gets the inherited value).
\<close>

theorem inferMuscleGroup_override_first:
  "(overrides ex = Some g \<longrightarrow> inferMuscleGroup overrides ex = Group g) \<and>
   (overrides ex = None \<longrightarrow>
      inferMuscleGroup overrides ex =
        (if ex \<in> set objectPrototypeKeys then Inherited
         else Group (keywordGroup (toLowerCase ex))))"
  by (simp add: inferMuscleGroup_def)

theorem inferMuscleGroup_override_first_witness:
  "inferMuscleGroup [''Calf Raise'' \<mapsto> Legs] ''Calf Raise'' = Group Legs \<and>
   keywordGroup (toLowerCase ''Calf Raise'') = Calves \<and>
   inferMuscleGroup [''Calf Raise'' \<mapsto> Legs] ''Squat'' = Group Legs \<and>
   inferMuscleGroup [''Calf Raise'' \<mapsto> Legs] ''Bench Press'' = Group Chest \<and>
   inferMuscleGroup [''Calf Raise'' \<mapsto> Legs] ''constructor'' = Inherited \<and>
   inferMuscleGroup [''constructor'' \<mapsto> Core] ''constructor'' = Group Core"
proof -
  let ?ov = "[''Calf Raise'' \<mapsto> Legs]"
  have k: "keywordGroup (toLowerCase ''Calf Raise'') = Calves" by code_simp
  have s: "keywordGroup (toLowerCase ''Squat'') = Legs" by code_simp
  have b: "keywordGroup (toLowerCase ''Bench Press'') = Chest" by code_simp
  have n1: "''Squat'' \<notin> set objectPrototypeKeys" by (simp add: objectPrototypeKeys_def)
  have n2: "''Bench Press'' \<notin> set objectPrototypeKeys" by (simp add: objectPrototypeKeys_def)
  have c: "''constructor'' \<in> set objectPrototypeKeys" by (simp add: objectPrototypeKeys_def)
  have 1: "inferMuscleGroup ?ov ''Calf Raise'' = Group Legs"
    using inferMuscleGroup_override_first [of ?ov "''Calf Raise''" Legs] by simp
  have 2: "inferMuscleGroup ?ov ''Squat'' = Group Legs"
    using inferMuscleGroup_override_first [of ?ov "''Squat''" Legs] n1 s by simp
  have 3: "inferMuscleGroup ?ov ''Bench Press'' = Group Chest"
    using inferMuscleGroup_override_first [of ?ov "''Bench Press''" Legs] n2 b by simp
  have 4: "inferMuscleGroup ?ov ''constructor'' = Inherited"
    using inferMuscleGroup_override_first [of ?ov "''constructor''" Legs] c by simp
  have 5: "inferMuscleGroup [''constructor'' \<mapsto> Core] ''constructor'' = Group Core"
    using inferMuscleGroup_override_first [of "[''constructor'' \<mapsto> Core]" "''constructor''" Core]
    by simp
  show ?thesis by (rule conjI[OF 1 conjI[OF k conjI[OF 2 conjI[OF 3 conjI[OF 4 5]]]]])
qed

section \<open>Order of the entries and the computed total\<close>

lemma roundHalfEven_of_int: "roundHalfEven (of_int k) = k"
  by (simp add: roundHalfEven_def)

lemma toDouble_of_nat:
  assumes "n < 2 ^ 53"
  shows "toDouble (of_nat n) = of_nat n"
proof (cases "n = 0")
  case True
  then show ?thesis by (simp add: toDouble_def)
next
  case False
  then have pos: "0 < n" by simp
  define L where "L = floorlog 2 n"
  have "floorlog 2 n \<noteq> 0" using pos by (simp add: floorlog_eq_zero_iff)
  then have L1: "1 \<le> L" by (simp add: L_def)
  have L53: "L \<le> 53" unfolding L_def using assms by (intro floorlog_leI) simp_all
  have lf: "log2floor (of_nat n) = int L - 1"
    using pos by (simp add: log2floor_def L_def)
  have e: "max (log2floor (of_nat n) - 52) (- 1074) = - int (53 - L)"
    using L1 L53 by (simp add: lf)
  have p: "pow2 (- int (53 - L)) = 1 / 2 ^ (53 - L)"
  proof (cases "L = 53")
    case True
    then show ?thesis by (simp add: pow2_def)
  next
    case False
    then have "nat (int (53 - L)) = 53 - L" "\<not> 0 \<le> - int (53 - L)" using L53 by simp_all
    then show ?thesis unfolding pow2_def by (simp only: if_False minus_minus)
  qed
  have q: "(of_nat n :: rat) / (1 / 2 ^ (53 - L)) = of_int (int (n * 2 ^ (53 - L)))"
    by simp
  have "toDouble (of_nat n) = of_int (int (n * 2 ^ (53 - L))) * (1 / 2 ^ (53 - L))"
    using pos unfolding toDouble_def Let_def e p abs_of_nat q roundHalfEven_of_int
    by simp
  then show ?thesis by simp
qed

lemma wholeNumber_iff: "wholeNumber x \<longleftrightarrow> (\<exists>n::nat. x = of_nat n)"
proof
  assume "wholeNumber x"
  then have "0 \<le> x" "x = of_int \<lfloor>x\<rfloor>" by (simp_all add: wholeNumber_def)
  then have "x = of_nat (nat \<lfloor>x\<rfloor>)" by (metis of_int_0_le_iff of_nat_nat)
  then show "\<exists>n::nat. x = of_nat n" ..
next
  assume "\<exists>n::nat. x = of_nat n"
  then show "wholeNumber x" by (auto simp: wholeNumber_def)
qed

lemma toDouble_whole: "wholeNumber x \<Longrightarrow> x < 2 ^ 53 \<Longrightarrow> toDouble x = x"
proof -
  assume "wholeNumber x" and b: "x < 2 ^ 53"
  then obtain n :: nat where x: "x = of_nat n" by (auto simp: wholeNumber_iff)
  have "(of_nat n :: rat) < of_nat (2 ^ 53)" using b x by simp
  then have "n < 2 ^ 53" by (simp only: of_nat_less_iff)
  then show ?thesis unfolding x by (rule toDouble_of_nat)
qed

lemma wholeNumber_mult: "wholeNumber x \<Longrightarrow> wholeNumber y \<Longrightarrow> wholeNumber (x * y)"
  unfolding wholeNumber_iff by (metis of_nat_mult)

lemma wholeNumber_add: "wholeNumber x \<Longrightarrow> wholeNumber y \<Longrightarrow> wholeNumber (x + y)"
  unfolding wholeNumber_iff by (metis of_nat_add)

lemma wholeNumber_ge1: "wholeNumber x \<Longrightarrow> x \<noteq> 0 \<Longrightarrow> 1 \<le> x"
  unfolding wholeNumber_iff by auto

lemma tonnage64_whole:
  assumes w: "wholeEntry w" and b: "tonnage w < 2 ^ 53"
  shows "tonnage64 w = tonnage w"
proof -
  let ?s = "orZero (sets w)" and ?r = "orZero (reps w)" and ?x = "orZero (weight w)"
  have ws: "wholeNumber ?s" and wr: "wholeNumber ?r" and wx: "wholeNumber ?x"
    using w by (simp_all add: wholeEntry_def)
  have sr: "wholeNumber (?s * ?r)" using ws wr by (rule wholeNumber_mult)
  show ?thesis
  proof (cases "?x = 0")
    case True
    then show ?thesis by (simp add: tonnage64_def tonnage_def toDouble_def)
  next
    case False
    then have x1: "1 \<le> ?x" using wx by (rule wholeNumber_ge1[rotated])
    have nn: "0 \<le> ?s * ?r" using sr by (simp add: wholeNumber_def)
    have "?s * ?r * 1 \<le> ?s * ?r * ?x" using x1 nn by (intro mult_left_mono) simp_all
    then have "?s * ?r < 2 ^ 53" using b by (simp add: tonnage_def)
    then have 1: "toDouble (?s * ?r) = ?s * ?r" using sr by (intro toDouble_whole)
    have "wholeNumber (?s * ?r * ?x)" using sr wx by (rule wholeNumber_mult)
    then have 2: "toDouble (?s * ?r * ?x) = ?s * ?r * ?x"
      using b by (intro toDouble_whole) (simp_all add: tonnage_def)
    show ?thesis by (simp add: tonnage64_def tonnage_def 1 2)
  qed
qed

lemma wholeEntry_tonnage: "wholeEntry w \<Longrightarrow> wholeNumber (tonnage w)"
  by (simp add: wholeEntry_def tonnage_def wholeNumber_mult)

lemma sum_list_whole_nonneg: "\<forall>w \<in> set ws. wholeEntry w \<Longrightarrow> 0 \<le> sum_list (map tonnage ws)"
  by (induction ws) (auto simp: wholeNumber_def dest!: wholeEntry_tonnage)

lemma foldl64_exact:
  "\<forall>w \<in> set ws. wholeEntry w \<Longrightarrow> wholeNumber a \<Longrightarrow> a + sum_list (map tonnage ws) < 2 ^ 53 \<Longrightarrow>
   foldl (\<lambda>s w. toDouble (s + tonnage64 w)) a ws = a + sum_list (map tonnage ws)"
proof (induction ws arbitrary: a)
  case Nil
  show ?case by simp
next
  case (Cons w ws)
  have ww: "wholeEntry w" and rest: "\<forall>v \<in> set ws. wholeEntry v" using Cons.prems(1) by simp_all
  have t: "wholeNumber (tonnage w)" using ww by (rule wholeEntry_tonnage)
  have a0: "0 \<le> a" using Cons.prems(2) by (simp add: wholeNumber_def)
  have t0: "0 \<le> tonnage w" using t by (simp add: wholeNumber_def)
  have r0: "0 \<le> sum_list (map tonnage ws)" using rest by (rule sum_list_whole_nonneg)
  have bound: "a + tonnage w + sum_list (map tonnage ws) < 2 ^ 53"
    using Cons.prems(3) by (simp add: add.assoc)
  have tb: "tonnage w < 2 ^ 53" using bound a0 r0 by linarith
  have sb: "a + tonnage w < 2 ^ 53" using bound r0 by linarith
  have t64: "tonnage64 w = tonnage w" using ww tb by (rule tonnage64_whole)
  have sw: "wholeNumber (a + tonnage w)" using Cons.prems(2) t by (rule wholeNumber_add)
  have s64: "toDouble (a + tonnage w) = a + tonnage w" using sw sb by (rule toDouble_whole)
  show ?case
    using Cons.IH[OF rest sw bound] by (simp add: t64 s64 add.assoc)
qed

lemma totalTonnage64_exact:
  "\<forall>w \<in> set ws. wholeEntry w \<Longrightarrow> totalTonnage ws < 2 ^ 53 \<Longrightarrow>
   totalTonnage64 ws = totalTonnage ws"
  using foldl64_exact[of ws 0]
  by (simp add: totalTonnage64_def totalTonnage_sum_list wholeNumber_def)

text \<open>
  C6 (as amended). For every list of workout entries whose sets, reps and weight are whole
  numbers that are not negative and whose total volume is below \<open>2^53\<close>, and every
  permutation of that list, the computed total volume (the per-entry tonnage added in
  list order, in double precision) is equal for the two lists, and it is the exact sum.
\<close>

theorem totalTonnage64_permutation:
  "\<forall>w \<in> set xs. wholeEntry w \<Longrightarrow> totalTonnage xs < 2 ^ 53 \<Longrightarrow> mset xs = mset ys \<Longrightarrow>
   totalTonnage64 xs = totalTonnage64 ys \<and> totalTonnage64 xs = totalTonnage xs"
proof -
  assume whole: "\<forall>w \<in> set xs. wholeEntry w" and bound: "totalTonnage xs < 2 ^ 53"
    and perm: "mset xs = mset ys"
  have "set xs = set ys" using perm by (rule mset_eq_setD)
  then have whole': "\<forall>w \<in> set ys. wholeEntry w" using whole by simp
  have "sum_mset (image_mset tonnage (mset xs)) = sum_mset (image_mset tonnage (mset ys))"
    using perm by simp
  then have same: "totalTonnage ys = totalTonnage xs"
    by (simp add: totalTonnage_sum_list flip: sum_mset_sum_list)
  have x: "totalTonnage64 xs = totalTonnage xs"
    using whole bound by (rule totalTonnage64_exact)
  have y: "totalTonnage64 ys = totalTonnage xs"
    using totalTonnage64_exact[OF whole'] bound same by simp
  show ?thesis using x y by simp
qed

theorem totalTonnage64_permutation_witness:
  "totalTonnage64
     [sampleEntry ''2025-01-06'' ''Squat'' 1 5 100, sampleEntry ''2025-01-06'' ''Bench'' 1 8 60] =
   totalTonnage64
     [sampleEntry ''2025-01-06'' ''Bench'' 1 8 60, sampleEntry ''2025-01-06'' ''Squat'' 1 5 100] \<and>
   totalTonnage64
     [sampleEntry ''2025-01-06'' ''Squat'' 1 5 100, sampleEntry ''2025-01-06'' ''Bench'' 1 8 60] =
   980"
proof -
  let ?a = "sampleEntry ''2025-01-06'' ''Squat'' 1 5 100"
  let ?b = "sampleEntry ''2025-01-06'' ''Bench'' 1 8 60"
  have w: "\<forall>w \<in> set [?a, ?b]. wholeEntry w"
    by (simp add: wholeEntry_def wholeNumber_def sampleEntry_def orZero_def)
  have t: "totalTonnage [?a, ?b] = 980" by code_simp
  have b: "totalTonnage [?a, ?b] < 2 ^ 53" unfolding t by simp
  have p: "mset [?a, ?b] = mset [?b, ?a]" by (simp add: add.commute)
  note r = totalTonnage64_permutation [OF w b p]
  have 1: "totalTonnage64 [?a, ?b] = totalTonnage64 [?b, ?a]" by (rule conjunct1[OF r])
  have 2: "totalTonnage64 [?a, ?b] = 980" by (rule trans[OF conjunct2[OF r] t])
  show ?thesis by (rule conjI[OF 1 2])
qed

text \<open>
  Three sets at 11.34 kg with 5, 8 and 10 reps: added in the order 5, 8, 10 the total is
  260.82000000000005, added in the order 8, 10, 5 it is 260.82.
\<close>

theorem total_order_counterexample:
  "totalTonnage64
     [sampleEntry ''2025-01-06'' ''Curl'' 1 5 (toDouble (1134 / 100)),
      sampleEntry ''2025-01-06'' ''Curl'' 1 8 (toDouble (1134 / 100)),
      sampleEntry ''2025-01-06'' ''Curl'' 1 10 (toDouble (1134 / 100))] =
     2294196982052291 / 8796093022208 \<and>
   totalTonnage64
     [sampleEntry ''2025-01-06'' ''Curl'' 1 8 (toDouble (1134 / 100)),
      sampleEntry ''2025-01-06'' ''Curl'' 1 10 (toDouble (1134 / 100)),
      sampleEntry ''2025-01-06'' ''Curl'' 1 5 (toDouble (1134 / 100))] =
     4588393964104581 / 17592186044416"
  by code_simp

section \<open>Suggested next weight\<close>

lemma toFixed_tenths: "\<exists>k::int. toFixed 1 x = of_int k / 10"
proof (cases "x < 0")
  case True
  then have "toFixed 1 x = of_int (- \<lfloor>(- x) * 10 + 1 / 2\<rfloor>) / 10"
    by (simp add: toFixed_def)
  then show ?thesis ..
next
  case False
  then have "toFixed 1 x = of_int \<lfloor>x * 10 + 1 / 2\<rfloor> / 10"
    by (simp add: toFixed_def)
  then show ?thesis ..
qed

lemma toFixed_nearest:
  "(0 \<le> x \<longrightarrow> x - 1 / 20 < toFixed 1 x \<and> toFixed 1 x \<le> x + 1 / 20) \<and>
   (x < 0 \<longrightarrow> x - 1 / 20 \<le> toFixed 1 x \<and> toFixed 1 x < x + 1 / 20)"
proof -
  have fl: "y - 1 / 20 < of_int \<lfloor>y * 10 + 1 / 2\<rfloor> / 10 \<and>
            of_int \<lfloor>y * 10 + 1 / 2\<rfloor> / 10 \<le> y + 1 / 20" for y :: rat
  proof -
    let ?n = "of_int \<lfloor>y * 10 + 1 / 2\<rfloor> :: rat"
    have lo: "?n \<le> y * 10 + 1 / 2" by (rule of_int_floor_le)
    have hi: "y * 10 + 1 / 2 < ?n + 1" by (rule floor_correct[THEN conjunct2, simplified])
    show ?thesis using lo hi by (simp add: field_simps)
  qed
  show ?thesis
  proof (cases "x < 0")
    case True
    define v :: rat where "v = of_int \<lfloor>(- x) * 10 + 1 / 2\<rfloor> / 10"
    have t: "toFixed 1 x = - v"
      using True by (simp add: toFixed_def v_def)
    have "- x - 1 / 20 < v \<and> v \<le> - x + 1 / 20"
      unfolding v_def by (rule fl)
    then show ?thesis unfolding t using True by linarith
  next
    case False
    define v :: rat where "v = of_int \<lfloor>x * 10 + 1 / 2\<rfloor> / 10"
    have t: "toFixed 1 x = v"
      using False by (simp add: toFixed_def v_def)
    have "x - 1 / 20 < v \<and> v \<le> x + 1 / 20"
      unfolding v_def by (rule fl)
    then show ?thesis unfolding t using False by linarith
  qed
qed

text \<open>
  C10 (as amended). For every uploaded workout row, the suggested next weight is the
  rounded product of the current weight and 1.025 when reps reach the high target and RPE
  is at least 9, the rounded product of the current weight and 0.95 when reps are below
  the low target, and the current weight in every other case, each formatted to one
  decimal place: replaced by the nearest multiple of 0.1, a tie going away from zero. The
  two conditions never hold together, the targets being 6 and 10.
\<close>

theorem uploaded_nextWeight:
  "w = uploadedWorkout d raw ex s repsN weightN rpeN nt \<Longrightarrow>
   wt = finiteOr weightN 0 \<Longrightarrow> r = finiteOr repsN 0 \<Longrightarrow> e = finiteOr rpeN 9 \<Longrightarrow>
   p = (if r \<ge> highTarget w \<and> e \<ge> 9 then toDouble (wt * toDouble (1025 / 1000))
        else if r < lowTarget w then toDouble (wt * toDouble (95 / 100))
        else wt) \<Longrightarrow>
   nextWeight w = Some (toFixed 1 p) \<and>
   (\<exists>k::int. toFixed 1 p = of_int k / 10) \<and>
   (0 \<le> p \<longrightarrow> p - 1 / 20 < toFixed 1 p \<and> toFixed 1 p \<le> p + 1 / 20) \<and>
   (p < 0 \<longrightarrow> p - 1 / 20 \<le> toFixed 1 p \<and> toFixed 1 p < p + 1 / 20) \<and>
   \<not> (r \<ge> highTarget w \<and> r < lowTarget w)"
proof -
  assume w: "w = uploadedWorkout d raw ex s repsN weightN rpeN nt"
    and wt: "wt = finiteOr weightN 0" and r: "r = finiteOr repsN 0" and e: "e = finiteOr rpeN 9"
    and p: "p = (if r \<ge> highTarget w \<and> e \<ge> 9 then toDouble (wt * toDouble (1025 / 1000))
        else if r < lowTarget w then toDouble (wt * toDouble (95 / 100))
        else wt)"
  have targets: "lowTarget w = 6" "highTarget w = 10"
    by (simp_all add: w uploadedWorkout_def Let_def)
  have 1: "nextWeight w = Some (toFixed 1 p)"
    unfolding p targets by (simp add: w wt r e uploadedWorkout_def calculateNextWeight_def Let_def)
  have 2: "\<exists>k::int. toFixed 1 p = of_int k / 10" by (rule toFixed_tenths)
  have 3: "\<not> (r \<ge> highTarget w \<and> r < lowTarget w)" unfolding targets by simp
  show ?thesis
    using 1 2 3 toFixed_nearest[of p] by blast
qed

theorem uploaded_nextWeight_witness:
  "nextWeight (uploadedWorkout ''2025-01-06'' ''Squat (Barbell)'' ''Squat'' 1
      (Some 10) (Some 50) (Some 9) ''ok'') = Some (256 / 5) \<and>
   nextWeight (uploadedWorkout ''2025-01-06'' ''Squat (Barbell)'' ''Squat'' 1
      (Some 4) (Some 37) (Some 9) ''ok'') = Some (351 / 10) \<and>
   nextWeight (uploadedWorkout ''2025-01-06'' ''Squat (Barbell)'' ''Squat'' 1
      (Some 8) (Some (toDouble (1134 / 100))) None ''ok'') = Some (113 / 10)"
proof -
  let ?w1 = "uploadedWorkout ''2025-01-06'' ''Squat (Barbell)'' ''Squat'' 1
      (Some 10) (Some 50) (Some 9) ''ok''"
  let ?w2 = "uploadedWorkout ''2025-01-06'' ''Squat (Barbell)'' ''Squat'' 1
      (Some 4) (Some 37) (Some 9) ''ok''"
  let ?w3 = "uploadedWorkout ''2025-01-06'' ''Squat (Barbell)'' ''Squat'' 1
      (Some 8) (Some (toDouble (1134 / 100))) None ''ok''"
  let ?p1 = "if finiteOr (Some 10) 0 \<ge> highTarget ?w1 \<and> finiteOr (Some 9) 9 \<ge> 9
        then toDouble (finiteOr (Some 50) 0 * toDouble (1025 / 1000))
        else if finiteOr (Some 10) 0 < lowTarget ?w1
          then toDouble (finiteOr (Some 50) 0 * toDouble (95 / 100))
        else finiteOr (Some 50) 0"
  let ?p2 = "if finiteOr (Some 4) 0 \<ge> highTarget ?w2 \<and> finiteOr (Some 9) 9 \<ge> 9
        then toDouble (finiteOr (Some 37) 0 * toDouble (1025 / 1000))
        else if finiteOr (Some 4) 0 < lowTarget ?w2
          then toDouble (finiteOr (Some 37) 0 * toDouble (95 / 100))
        else finiteOr (Some 37) 0"
  let ?p3 = "if finiteOr (Some 8) 0 \<ge> highTarget ?w3 \<and> finiteOr None 9 \<ge> 9
        then toDouble (finiteOr (Some (toDouble (1134 / 100))) 0 * toDouble (1025 / 1000))
        else if finiteOr (Some 8) 0 < lowTarget ?w3
          then toDouble (finiteOr (Some (toDouble (1134 / 100))) 0 * toDouble (95 / 100))
        else finiteOr (Some (toDouble (1134 / 100))) 0"
  have a1: "nextWeight ?w1 = Some (toFixed 1 ?p1)"
    by (rule conjunct1[OF uploaded_nextWeight[OF refl refl refl refl refl]])
  have a2: "nextWeight ?w2 = Some (toFixed 1 ?p2)"
    by (rule conjunct1[OF uploaded_nextWeight[OF refl refl refl refl refl]])
  have a3: "nextWeight ?w3 = Some (toFixed 1 ?p3)"
    by (rule conjunct1[OF uploaded_nextWeight[OF refl refl refl refl refl]])
  have b1: "toFixed 1 ?p1 = 256 / 5" by code_simp
  have b2: "toFixed 1 ?p2 = 351 / 10" by code_simp
  have b3: "toFixed 1 ?p3 = 113 / 10" by code_simp
  have 1: "nextWeight ?w1 = Some (256 / 5)" by (rule trans[OF a1 arg_cong[where f = Some, OF b1]])
  have 2: "nextWeight ?w2 = Some (351 / 10)" by (rule trans[OF a2 arg_cong[where f = Some, OF b2]])
  have 3: "nextWeight ?w3 = Some (113 / 10)" by (rule trans[OF a3 arg_cong[where f = Some, OF b3]])
  show ?thesis by (rule conjI[OF 1 conjI[OF 2 3]])
qed

text \<open>
  A row at 11.34 kg with 8 reps at RPE 8 falls in the last case, and its suggested weight
  is 11.3, not the weight itself.
\<close>

theorem nextWeight_unchanged_counterexample:
  "nextWeight (uploadedWorkout ''2025-01-06'' ''Curl'' ''Curl'' 1
      (Some 8) (Some (toDouble (1134 / 100))) (Some 8) ''ok'') = Some (113 / 10) \<and>
   toDouble (1134 / 100) = 3191926235898839 / 281474976710656"
  by code_simp

section \<open>Deduplication of merged uploads\<close>

lemma keys_dedupFilter:
  "set (map (workoutKey str) (dedupFilter str seen ws)) = set (map (workoutKey str) ws) - seen"
  by (induction ws arbitrary: seen) (auto simp: Let_def)

lemma distinct_dedupFilter: "distinct (map (workoutKey str) (dedupFilter str seen ws))"
proof (induction ws arbitrary: seen)
  case Nil
  show ?case by simp
next
  case (Cons w ws)
  have "workoutKey str w \<notin>
        set (map (workoutKey str) (dedupFilter str (insert (workoutKey str w) seen) ws))"
    unfolding keys_dedupFilter by simp
  with Cons show ?case by (simp add: Let_def)
qed

lemma dedupFilter_fixed:
  "distinct (map (workoutKey str) ws) \<Longrightarrow> set (map (workoutKey str) ws) \<inter> seen = {} \<Longrightarrow>
   dedupFilter str seen ws = ws"
proof (induction ws arbitrary: seen)
  case Nil
  show ?case by simp
next
  case (Cons w ws)
  from Cons.prems have a: "workoutKey str w \<notin> seen" by auto
  from Cons.prems have b: "distinct (map (workoutKey str) ws)" by simp
  from Cons.prems have c: "set (map (workoutKey str) ws) \<inter> insert (workoutKey str w) seen = {}"
    by auto
  show ?case using a Cons.IH[OF b c] by (simp add: Let_def)
qed

lemma dedupFilter_append:
  "dedupFilter str seen (xs @ ys) =
   dedupFilter str seen xs @ dedupFilter str (seen \<union> set (map (workoutKey str) xs)) ys"
proof (induction xs arbitrary: seen)
  case Nil
  show ?case by simp
next
  case (Cons x xs)
  show ?case
  proof (cases "workoutKey str x \<in> seen")
    case True
    then have "seen \<union> set (map (workoutKey str) (x # xs)) =
               seen \<union> set (map (workoutKey str) xs)"
      by auto
    then show ?thesis using True Cons.IH[of seen] by (simp add: Let_def)
  next
    case False
    have "seen \<union> set (map (workoutKey str) (x # xs)) =
          insert (workoutKey str x) seen \<union> set (map (workoutKey str) xs)"
      by auto
    then show ?thesis
      using False Cons.IH[of "insert (workoutKey str x) seen"] by (simp add: Let_def)
  qed
qed

lemma dedupFilter_all_seen:
  "set (map (workoutKey str) ws) \<subseteq> seen \<Longrightarrow> dedupFilter str seen ws = []"
  by (induction ws) (simp_all add: Let_def)

lemma dedupFilter_index:
  "dedupFilter str seen ws =
   map (\<lambda>i. ws ! i)
     (filter (\<lambda>i. workoutKey str (ws ! i) \<notin> seen \<and>
                  (\<forall>j<i. workoutKey str (ws ! j) \<noteq> workoutKey str (ws ! i)))
        [0..<length ws])"
proof (induction ws arbitrary: seen)
  case Nil
  show ?case by simp
next
  case (Cons w ws)
  let ?k = "workoutKey str"
  let ?P = "\<lambda>sn (vs::WorkoutEntry list) i.
              ?k (vs ! i) \<notin> sn \<and> (\<forall>j<i. ?k (vs ! j) \<noteq> ?k (vs ! i))"
  have upt: "[0..<length (w # ws)] = 0 # map Suc [0..<length ws]"
    by (simp add: upt_conv_Cons map_Suc_upt del: upt_Suc)
  have shift: "?P sn (w # ws) (Suc i) \<longleftrightarrow> ?P (insert (?k w) sn) ws i" for sn i
    by (auto simp: less_Suc_eq_0_disj)
  have pred: "(\<lambda>i. ?P sn (w # ws) (Suc i)) = ?P (insert (?k w) sn) ws" for sn
    by (rule ext) (rule shift)
  have flt: "filter (?P sn (w # ws)) (map Suc xs) = map Suc (filter (?P (insert (?k w) sn) ws) xs)"
    for sn xs
    by (simp only: filter_map o_def pred)
  have tail: "map (\<lambda>i. (w # ws) ! i) (filter (?P sn (w # ws)) (map Suc [0..<length ws])) =
              dedupFilter str (insert (?k w) sn) ws" for sn
    unfolding Cons.IH[of "insert (?k w) sn"] flt by (simp add: o_def)
  show ?case
  proof (cases "?k w \<in> seen")
    case True
    then have "insert (?k w) seen = seen" by auto
    then show ?thesis using True tail[of seen] unfolding upt by (simp add: Let_def)
  next
    case False
    then show ?thesis using tail[of seen] unfolding upt by (simp add: Let_def)
  qed
qed

lemma split_at_first:
  "h \<notin> set p \<Longrightarrow> h \<notin> set p' \<Longrightarrow> p @ h # s = p' @ h # s' \<Longrightarrow> p = p' \<and> s = s'"
proof (induction p arbitrary: p')
  case Nil
  then show ?case by (cases p') auto
next
  case (Cons a p)
  then show ?case by (cases p') auto
qed

lemma split_at_last:
  assumes "h \<notin> set c" and "h \<notin> set c'" and eq: "u @ h # c = u' @ h # c'"
  shows "u = u' \<and> c = c'"
proof -
  have "rev (u @ h # c) = rev (u' @ h # c')" using eq by simp
  then have "rev c @ h # rev u = rev c' @ h # rev u'" by simp
  then have "rev c = rev c' \<and> rev u = rev u'"
    using assms(1,2) by (intro split_at_first) simp_all
  then show ?thesis by simp
qed

lemma workoutKey_fields: "entryFields a = entryFields b \<Longrightarrow> workoutKey str a = workoutKey str b"
  by (simp add: entryFields_def workoutKey_def)

lemma workoutKey_unfold:
  "workoutKey str w =
     (((date w @ CHR ''-'' # exercise w) @ CHR ''-'' # str (weight w)) @
        CHR ''-'' # str (reps w)) @
     CHR ''-'' # (case rpe w of None \<Rightarrow> [] | Some r \<Rightarrow> str (Some r))"
  by (simp add: workoutKey_def)

lemma rpe_string_plain:
  "plainEntry str w \<Longrightarrow>
   CHR ''-'' \<notin> set (case rpe w of None \<Rightarrow> [] | Some r \<Rightarrow> str (Some r))"
  by (auto simp: plainEntry_def split: option.splits)

lemma workoutKey_read_back:
  assumes a: "plainEntry str a" and b: "plainEntry str b"
    and inj: "inj_on str V"
    and va: "weight a \<in> V" "reps a \<in> V" "rpe a \<in> V"
    and vb: "weight b \<in> V" "reps b \<in> V" "rpe b \<in> V"
    and key: "workoutKey str a = workoutKey str b"
  shows "entryFields a = entryFields b"
proof -
  let ?e = "\<lambda>w. case rpe w of None \<Rightarrow> [] | Some r \<Rightarrow> str (Some r)"
  have 1: "(date a @ CHR ''-'' # exercise a) @ CHR ''-'' # str (weight a) @ CHR ''-'' # str (reps a) =
           (date b @ CHR ''-'' # exercise b) @ CHR ''-'' # str (weight b) @ CHR ''-'' # str (reps b)
           \<and> ?e a = ?e b"
    using split_at_last[OF rpe_string_plain[OF a] rpe_string_plain[OF b]
        key[unfolded workoutKey_unfold]]
    by simp
  have 2: "(date a @ CHR ''-'' # exercise a) @ CHR ''-'' # str (weight a) =
           (date b @ CHR ''-'' # exercise b) @ CHR ''-'' # str (weight b)
           \<and> str (reps a) = str (reps b)"
    using split_at_last[of "CHR ''-''" "str (reps a)" "str (reps b)"
        "(date a @ CHR ''-'' # exercise a) @ CHR ''-'' # str (weight a)"
        "(date b @ CHR ''-'' # exercise b) @ CHR ''-'' # str (weight b)"] a b 1
    by (simp add: plainEntry_def)
  have 3: "date a @ CHR ''-'' # exercise a = date b @ CHR ''-'' # exercise b
           \<and> str (weight a) = str (weight b)"
    using split_at_last[of "CHR ''-''" "str (weight a)" "str (weight b)"
        "date a @ CHR ''-'' # exercise a" "date b @ CHR ''-'' # exercise b"] a b 2
    by (simp add: plainEntry_def)
  have 4: "date a = date b \<and> exercise a = exercise b"
    using split_at_last[of "CHR ''-''" "exercise a" "exercise b" "date a" "date b"] a b 3
    by (simp add: plainEntry_def)
  have w: "weight a = weight b" using 3 inj va(1) vb(1) by (auto dest: inj_onD)
  have r: "reps a = reps b" using 2 inj va(2) vb(2) by (auto dest: inj_onD)
  have e: "rpe a = rpe b"
  proof (cases "rpe a")
    case None
    then show ?thesis using 1 b by (cases "rpe b") (auto simp: plainEntry_def)
  next
    case (Some x)
    show ?thesis
    proof (cases "rpe b")
      case None
      then show ?thesis using 1 a Some by (auto simp: plainEntry_def)
    next
      case Some': (Some y)
      have "str (rpe a) = str (rpe b)" using 1 Some Some' by simp
      then show ?thesis using inj va(3) vb(3) by (auto dest: inj_onD)
    qed
  qed
  show ?thesis using 4 w r e by (simp add: entryFields_def)
qed

lemma fieldValues_mem:
  "w \<in> set ws \<Longrightarrow>
   weight w \<in> set (fieldValues ws) \<and> reps w \<in> set (fieldValues ws) \<and> rpe w \<in> set (fieldValues ws)"
  by (auto simp: fieldValues_def)

lemma keys_subset_of_fields:
  "set (map entryFields new) \<subseteq> set (map entryFields prev) \<Longrightarrow>
   set (map (workoutKey str) new) \<subseteq> set (map (workoutKey str) prev)"
proof
  fix k
  assume sub: "set (map entryFields new) \<subseteq> set (map entryFields prev)"
    and "k \<in> set (map (workoutKey str) new)"
  then obtain w where w: "w \<in> set new" "k = workoutKey str w" by auto
  then have "entryFields w \<in> set (map entryFields prev)" using sub by auto
  then obtain v where v: "v \<in> set prev" "entryFields v = entryFields w" by auto
  have "workoutKey str v = workoutKey str w" using v(2) by (rule workoutKey_fields)
  then have "workoutKey str v = k" using w(2) by simp
  then show "k \<in> set (map (workoutKey str) prev)" using v(1) by auto
qed

lemma dedup_present:
  "set (map entryFields new) \<subseteq> set (map entryFields prev) \<Longrightarrow>
   deduplicateWorkouts str (prev @ new) = deduplicateWorkouts str prev"
proof -
  assume "set (map entryFields new) \<subseteq> set (map entryFields prev)"
  then have "set (map (workoutKey str) new) \<subseteq> {} \<union> set (map (workoutKey str) prev)"
    using keys_subset_of_fields by simp
  then have "dedupFilter str ({} \<union> set (map (workoutKey str) prev)) new = []"
    by (rule dedupFilter_all_seen)
  then show ?thesis
    unfolding deduplicateWorkouts_def dedupFilter_append[of str "{}" prev new] by simp
qed

text \<open>
  C9 (as amended). \<^verbatim>\<open>deduplicateWorkouts\<close> is idempotent, and for every input list its
  output contains, in their original relative order, exactly the first occurrence of each
  distinct key string made of date, exercise, weight, reps and rpe joined by hyphens.
  Entries that agree in the five fields have the same key string; where exercise names
  and number strings contain no hyphen and the numbers print to different strings, entries
  that differ in a field have different key strings, so that the output is the first
  occurrence of each distinct combination of the five fields. Hence merging an upload
  whose entries are already present in the stored list of their category adds no entry.
\<close>

theorem deduplicateWorkouts_first_occurrences:
  "deduplicateWorkouts str (deduplicateWorkouts str ws) = deduplicateWorkouts str ws \<and>
   deduplicateWorkouts str ws =
     map (\<lambda>i. ws ! i)
       (filter (\<lambda>i. \<forall>j<i. workoutKey str (ws ! j) \<noteq> workoutKey str (ws ! i))
          [0..<length ws]) \<and>
   (entryFields a = entryFields b \<longrightarrow> workoutKey str a = workoutKey str b) \<and>
   ((\<forall>w \<in> set ws. plainEntry str w) \<and> inj_on str (set (fieldValues ws)) \<longrightarrow>
      deduplicateWorkouts str ws =
        map (\<lambda>i. ws ! i)
          (filter (\<lambda>i. \<forall>j<i. entryFields (ws ! j) \<noteq> entryFields (ws ! i))
             [0..<length ws])) \<and>
   (set (map entryFields (push new)) \<subseteq> set (map entryFields (push prev)) \<and>
    set (map entryFields (pull new)) \<subseteq> set (map entryFields (pull prev)) \<and>
    set (map entryFields (legs new)) \<subseteq> set (map entryFields (legs prev)) \<and>
    set (map entryFields (conditioning new)) \<subseteq> set (map entryFields (conditioning prev)) \<longrightarrow>
      mergeUpload str prev new =
        \<lparr>push = deduplicateWorkouts str (push prev),
         pull = deduplicateWorkouts str (pull prev),
         legs = deduplicateWorkouts str (legs prev),
         conditioning = deduplicateWorkouts str (conditioning prev)\<rparr>)"
proof (intro conjI impI)
  show "deduplicateWorkouts str (deduplicateWorkouts str ws) = deduplicateWorkouts str ws"
    unfolding deduplicateWorkouts_def
    by (rule dedupFilter_fixed) (simp_all add: distinct_dedupFilter)
  show idx: "deduplicateWorkouts str ws =
     map (\<lambda>i. ws ! i)
       (filter (\<lambda>i. \<forall>j<i. workoutKey str (ws ! j) \<noteq> workoutKey str (ws ! i))
          [0..<length ws])"
    unfolding deduplicateWorkouts_def dedupFilter_index[of str "{}" ws] by simp
  show "workoutKey str a = workoutKey str b" if "entryFields a = entryFields b"
    using that by (rule workoutKey_fields)
  show "deduplicateWorkouts str ws =
        map (\<lambda>i. ws ! i)
          (filter (\<lambda>i. \<forall>j<i. entryFields (ws ! j) \<noteq> entryFields (ws ! i))
             [0..<length ws])"
    if h: "(\<forall>w \<in> set ws. plainEntry str w) \<and> inj_on str (set (fieldValues ws))"
  proof -
    have same: "workoutKey str (ws ! j) = workoutKey str (ws ! i) \<longleftrightarrow>
                entryFields (ws ! j) = entryFields (ws ! i)"
      if "i < length ws" "j < length ws" for i j
    proof
      assume "workoutKey str (ws ! j) = workoutKey str (ws ! i)"
      moreover have "ws ! i \<in> set ws" "ws ! j \<in> set ws" using that by simp_all
      ultimately show "entryFields (ws ! j) = entryFields (ws ! i)"
        using h fieldValues_mem[of "ws ! i" ws] fieldValues_mem[of "ws ! j" ws]
        by (intro workoutKey_read_back[where str = str and V = "set (fieldValues ws)"]) simp_all
    next
      assume "entryFields (ws ! j) = entryFields (ws ! i)"
      then show "workoutKey str (ws ! j) = workoutKey str (ws ! i)" by (rule workoutKey_fields)
    qed
    have "filter (\<lambda>i. \<forall>j<i. workoutKey str (ws ! j) \<noteq> workoutKey str (ws ! i)) [0..<length ws] =
          filter (\<lambda>i. \<forall>j<i. entryFields (ws ! j) \<noteq> entryFields (ws ! i)) [0..<length ws]"
      by (rule filter_cong[OF refl]) (auto simp: same)
    then show ?thesis unfolding idx by simp
  qed
  show "mergeUpload str prev new =
        \<lparr>push = deduplicateWorkouts str (push prev),
         pull = deduplicateWorkouts str (pull prev),
         legs = deduplicateWorkouts str (legs prev),
         conditioning = deduplicateWorkouts str (conditioning prev)\<rparr>"
    if "set (map entryFields (push new)) \<subseteq> set (map entryFields (push prev)) \<and>
        set (map entryFields (pull new)) \<subseteq> set (map entryFields (pull prev)) \<and>
        set (map entryFields (legs new)) \<subseteq> set (map entryFields (legs prev)) \<and>
        set (map entryFields (conditioning new)) \<subseteq> set (map entryFields (conditioning prev))"
    using that unfolding mergeUpload_def by (simp only: dedup_present)
qed

theorem deduplicateWorkouts_first_occurrences_witness:
  "deduplicateWorkouts wholeNumberString
     [sampleEntry ''2025-01-06'' ''Squat'' 1 5 100,
      sampleEntry ''2025-01-06'' ''Squat'' 1 5 110,
      sampleEntry ''2025-01-06'' ''Squat'' 1 5 100] =
   [sampleEntry ''2025-01-06'' ''Squat'' 1 5 100,
    sampleEntry ''2025-01-06'' ''Squat'' 1 5 110] \<and>
   mergeUpload wholeNumberString
     \<lparr>push = [], pull = [],
      legs = [sampleEntry ''2025-01-06'' ''Squat'' 1 5 100,
              sampleEntry ''2025-01-06'' ''Squat'' 1 5 110],
      conditioning = []\<rparr>
     \<lparr>push = [], pull = [],
      legs = [sampleEntry ''2025-01-06'' ''Squat'' 1 5 110],
      conditioning = []\<rparr> =
     \<lparr>push = [], pull = [],
      legs = [sampleEntry ''2025-01-06'' ''Squat'' 1 5 100,
              sampleEntry ''2025-01-06'' ''Squat'' 1 5 110],
      conditioning = []\<rparr>"
proof -
  let ?a = "sampleEntry ''2025-01-06'' ''Squat'' 1 5 100"
  let ?b = "sampleEntry ''2025-01-06'' ''Squat'' 1 5 110"
  let ?ws = "[?a, ?b, ?a]"
  let ?prev = "\<lparr>push = [], pull = [], legs = [?a, ?b], conditioning = []\<rparr>"
  let ?new = "\<lparr>push = [], pull = [], legs = [?b], conditioning = []\<rparr>"
  have s: "wholeNumberString (Some 100) = ''100''" "wholeNumberString (Some 110) = ''110''"
    "wholeNumberString (Some 5) = ''5''" "wholeNumberString (Some 9) = ''9''"
    by code_simp+
  have pa: "plainEntry wholeNumberString ?a" by (simp add: plainEntry_def sampleEntry_def s)
  have pb: "plainEntry wholeNumberString ?b" by (simp add: plainEntry_def sampleEntry_def s)
  have fv: "set (fieldValues ?ws) = {Some 100, Some 5, Some 9, Some 110}"
    by (auto simp: fieldValues_def sampleEntry_def)
  have inj: "inj_on wholeNumberString (set (fieldValues ?ws))"
    unfolding fv by (simp add: s)
  have h: "(\<forall>w \<in> set ?ws. plainEntry wholeNumberString w) \<and>
           inj_on wholeNumberString (set (fieldValues ?ws))"
    using pa pb inj by simp
  have sub: "set (map entryFields (push ?new)) \<subseteq> set (map entryFields (push ?prev)) \<and>
      set (map entryFields (pull ?new)) \<subseteq> set (map entryFields (pull ?prev)) \<and>
      set (map entryFields (legs ?new)) \<subseteq> set (map entryFields (legs ?prev)) \<and>
      set (map entryFields (conditioning ?new)) \<subseteq> set (map entryFields (conditioning ?prev))"
    by simp
  note t = deduplicateWorkouts_first_occurrences
    [where str = wholeNumberString and ws = ?ws and prev = ?prev and new = ?new
       and a = ?a and b = ?a]
  have first: "deduplicateWorkouts wholeNumberString ?ws =
      map (\<lambda>i. ?ws ! i)
        (filter (\<lambda>i. \<forall>j<i. entryFields (?ws ! j) \<noteq> entryFields (?ws ! i)) [0..<length ?ws])"
    using t h by blast
  have ab: "entryFields ?a \<noteq> entryFields ?b" by (simp add: entryFields_def sampleEntry_def)
  have idx: "[0..<length ?ws] = [0, 1, 2]" by (simp add: upt_rec)
  have 1: "deduplicateWorkouts wholeNumberString ?ws = [?a, ?b]"
    unfolding first idx using ab by (simp add: less_Suc_eq numeral_2_eq_2)
  have merged: "mergeUpload wholeNumberString ?prev ?new =
      \<lparr>push = deduplicateWorkouts wholeNumberString (push ?prev),
       pull = deduplicateWorkouts wholeNumberString (pull ?prev),
       legs = deduplicateWorkouts wholeNumberString (legs ?prev),
       conditioning = deduplicateWorkouts wholeNumberString (conditioning ?prev)\<rparr>"
    using t sub by blast
  have kab: "workoutKey wholeNumberString ?a \<noteq> workoutKey wholeNumberString ?b"
    by (simp add: workoutKey_def sampleEntry_def s)
  have d: "deduplicateWorkouts wholeNumberString [?a, ?b] = [?a, ?b]"
    using kab by (simp add: deduplicateWorkouts_def Let_def)
  have e: "deduplicateWorkouts wholeNumberString [] = []"
    by (simp add: deduplicateWorkouts_def)
  have 2: "mergeUpload wholeNumberString ?prev ?new = ?prev"
    unfolding merged by (simp add: d e)
  show ?thesis by (rule conjI[OF 1 2])
qed

text \<open>
  Two entries that differ in date and exercise and share one key string,
  \<^verbatim>\<open>2025-01-06-Press-50-5-9\<close>: the second is dropped.
\<close>

theorem key_collision_counterexample:
  "deduplicateWorkouts wholeNumberString
     [sampleEntry ''2025-01-06'' ''Press'' 1 5 50,
      sampleEntry ''2025-01'' ''06-Press'' 1 5 50] =
   [sampleEntry ''2025-01-06'' ''Press'' 1 5 50] \<and>
   entryFields (sampleEntry ''2025-01-06'' ''Press'' 1 5 50) \<noteq>
   entryFields (sampleEntry ''2025-01'' ''06-Press'' 1 5 50) \<and>
   workoutKey wholeNumberString (sampleEntry ''2025-01'' ''06-Press'' 1 5 50) =
     ''2025-01-06-Press-50-5-9''"
proof -
  let ?a = "sampleEntry ''2025-01-06'' ''Press'' 1 5 50"
  let ?b = "sampleEntry ''2025-01'' ''06-Press'' 1 5 50"
  have s: "wholeNumberString (Some 50) = ''50''" "wholeNumberString (Some 5) = ''5''"
    "wholeNumberString (Some 9) = ''9''"
    by code_simp+
  have ka: "workoutKey wholeNumberString ?a = ''2025-01-06-Press-50-5-9''"
    by (simp add: workoutKey_def sampleEntry_def s)
  have kb: "workoutKey wholeNumberString ?b = ''2025-01-06-Press-50-5-9''"
    by (simp add: workoutKey_def sampleEntry_def s)
  have 1: "deduplicateWorkouts wholeNumberString [?a, ?b] = [?a]"
    by (simp add: deduplicateWorkouts_def Let_def ka kb)
  have 2: "entryFields ?a \<noteq> entryFields ?b" by (simp add: entryFields_def sampleEntry_def)
  show ?thesis by (rule conjI[OF 1 conjI[OF 2 kb]])
qed

section \<open>Muscle-group distribution: the listed groups\<close>

lemma groupTotals_groupVolume: "groupTotals ov ws g = groupVolume ov ws g"
proof -
  let ?step = "\<lambda>m w. case inferMuscleGroup ov (exercise w) of
                        Group g \<Rightarrow> m(g := toDouble (m g + tonnage64 w))
                      | Inherited \<Rightarrow> m"
  have "foldl ?step m ws g =
        foldl (\<lambda>s w. toDouble (s + tonnage64 w)) (m g)
          (filter (\<lambda>w. inferMuscleGroup ov (exercise w) = Group g) ws)" for m
    by (induction ws arbitrary: m) (simp_all split: Inferred.splits)
  then show ?thesis by (simp add: groupTotals_def groupVolume_def totalTonnage64_def)
qed

lemma mset_groupItems:
  "mset (groupItems ov ws) =
   mset (filter (\<lambda>x. item_value x > 0) (map (groupEntry ov ws) muscleKeys))"
proof -
  have "(\<lambda>n. \<lparr>item_name = n, item_value = groupTotals ov ws n, item_color = palette n\<rparr>) =
        groupEntry ov ws"
    by (rule ext) (simp add: groupEntry_def groupTotals_groupVolume)
  then show ?thesis by (simp add: groupItems_def Let_def)
qed

lemma set_groupItems:
  "set (groupItems ov ws) = {groupEntry ov ws n | n. 0 < groupVolume ov ws n}"
proof -
  have "set (groupItems ov ws) = set_mset (mset (groupItems ov ws))" by simp
  also have "\<dots> = {x \<in> groupEntry ov ws ` set muscleKeys. 0 < item_value x}"
    unfolding mset_groupItems by simp
  also have "set muscleKeys = UNIV"
  proof -
    have "g \<in> set muscleKeys" for g by (cases g) (simp_all add: muscleKeys_def)
    then show ?thesis by auto
  qed
  finally show ?thesis by (auto simp: groupEntry_def)
qed

text \<open>
  C1 (as amended). In the muscle-group distribution computed from any workout history, a
  group, Calves included, is listed with value \<open>v\<close> exactly when \<open>v\<close> is positive and is the
  tonnage of the entries that \<^verbatim>\<open>inferMuscleGroup\<close> assigns to that group, added in the order
  of the history.
\<close>

theorem muscleGroupTonnage_entries:
  "(\<exists>x \<in> set (muscleGroupTonnage ov ws). item_name x = g \<and> item_value x = v) \<longleftrightarrow>
   (0 < v \<and>
    v = totalTonnage64 (filter (\<lambda>w. inferMuscleGroup ov (exercise w) = Group g) ws))"
proof -
  have "(\<exists>x \<in> set (muscleGroupTonnage ov ws). item_name x = g \<and> item_value x = v) \<longleftrightarrow>
        (\<exists>x \<in> set (groupItems ov ws). item_name x = g \<and> item_value x = v)"
    by (auto simp: muscleGroupTonnage_def Let_def)
  also have "\<dots> \<longleftrightarrow> (0 < v \<and> v = groupVolume ov ws g)"
    unfolding set_groupItems by (auto simp: groupEntry_def)
  finally show ?thesis by (simp add: groupVolume_def)
qed

theorem muscleGroupTonnage_entries_witness:
  "(\<exists>x \<in> set (muscleGroupTonnage Map.empty
        [sampleEntry ''2025-01-06'' ''Calf Raise'' 1 10 50,
         sampleEntry ''2025-01-06'' ''Squat'' 1 5 100]).
      item_name x = Calves \<and> item_value x = 500) \<and>
   (\<exists>x \<in> set (muscleGroupTonnage [''Calf Raise'' \<mapsto> Legs]
        [sampleEntry ''2025-01-06'' ''Calf Raise'' 1 10 50,
         sampleEntry ''2025-01-06'' ''Squat'' 1 5 100]).
      item_name x = Legs \<and> item_value x = 1000) \<and>
   \<not> (\<exists>x \<in> set (muscleGroupTonnage [''Calf Raise'' \<mapsto> Legs]
        [sampleEntry ''2025-01-06'' ''Calf Raise'' 1 10 50,
         sampleEntry ''2025-01-06'' ''Squat'' 1 5 100]).
      item_name x = Calves \<and> item_value x = 500)"
proof -
  let ?ws = "[sampleEntry ''2025-01-06'' ''Calf Raise'' 1 10 50,
              sampleEntry ''2025-01-06'' ''Squat'' 1 5 100]"
  let ?ov = "[''Calf Raise'' \<mapsto> Legs]"
  have a: "0 < (500::rat) \<and> 500 = totalTonnage64
      (filter (\<lambda>w. inferMuscleGroup Map.empty (exercise w) = Group Calves) ?ws)"
    by code_simp
  have b: "0 < (1000::rat) \<and> 1000 = totalTonnage64
      (filter (\<lambda>w. inferMuscleGroup ?ov (exercise w) = Group Legs) ?ws)"
    by code_simp
  have c: "\<not> (0 < (500::rat) \<and> 500 = totalTonnage64
      (filter (\<lambda>w. inferMuscleGroup ?ov (exercise w) = Group Calves) ?ws))"
    by code_simp
  have 1: "\<exists>x \<in> set (muscleGroupTonnage Map.empty ?ws). item_name x = Calves \<and> item_value x = 500"
    by (rule iffD2[OF muscleGroupTonnage_entries a])
  have 2: "\<exists>x \<in> set (muscleGroupTonnage ?ov ?ws). item_name x = Legs \<and> item_value x = 1000"
    by (rule iffD2[OF muscleGroupTonnage_entries b])
  have 3: "\<not> (\<exists>x \<in> set (muscleGroupTonnage ?ov ?ws). item_name x = Calves \<and> item_value x = 500)"
    using c unfolding muscleGroupTonnage_entries .
  show ?thesis by (rule conjI[OF 1 conjI[OF 2 3]])
qed

text \<open>
  A calf raise with no override is listed under Calves, with all of its volume, and
  nothing is listed under Legs.
\<close>

theorem calves_own_entry_counterexample:
  "map item_name (muscleGroupTonnage Map.empty
      [sampleEntry ''2025-01-06'' ''Calf Raise'' 1 10 50]) = [Calves] \<and>
   map item_value (muscleGroupTonnage Map.empty
      [sampleEntry ''2025-01-06'' ''Calf Raise'' 1 10 50]) = [500]"
  by code_simp

section \<open>Muscle-group distribution: percentages\<close>

text \<open>
  C7. For a history whose total tonnage is strictly positive the percentages of the
  distribution should sum to 100 up to rounding. An entry whose exercise is named as a
  property every object inherits, here \<^verbatim>\<open>constructor\<close>, is assigned to no group: the total
  tonnage is 500, the distribution is empty and its percentages sum to 0.
\<close>

theorem inherited_name_empty_distribution:
  "totalTonnage64 [sampleEntry ''2025-01-06'' ''constructor'' 1 5 100] = 500 \<and>
   totalTonnage [sampleEntry ''2025-01-06'' ''constructor'' 1 5 100] = 500 \<and>
   muscleGroupTonnage Map.empty [sampleEntry ''2025-01-06'' ''constructor'' 1 5 100] = [] \<and>
   sum_list (map item_pct
     (muscleGroupTonnage Map.empty [sampleEntry ''2025-01-06'' ''constructor'' 1 5 100])) = 0"
  by code_simp

end
